theory Spec2Isabelle
  imports Complex_Main "HOL-Library.Sublist"
begin

section \<open>Text as sequences of code points\<close>

text \<open>
  The build script is Python 3: a \<^verbatim>\<open>str\<close> is a sequence of Unicode code points, and
  two of its headings contain U+2264. A string is therefore a list of code points; \<open>u\<close>
  embeds an ASCII literal.
\<close>

type_synonym ustr = "nat list"

definition u :: "string \<Rightarrow> ustr" where
  "u s = map of_char s"

subsection \<open>Character classes of the interpreter\<close>

text \<open>
  \<^verbatim>\<open>\s\<close> in a \<^verbatim>\<open>str\<close> pattern, \<^verbatim>\<open>str.strip()\<close> and \<^verbatim>\<open>str.split()\<close> share one
  whitespace class (the characters for which \<^verbatim>\<open>str.isspace\<close> holds).
\<close>

definition is_space :: "nat \<Rightarrow> bool" where
  "is_space c \<longleftrightarrow>
     (9 \<le> c \<and> c \<le> 13) \<or> (28 \<le> c \<and> c \<le> 32) \<or> c = 133 \<or> c = 160 \<or> c = 5760 \<or>
     (8192 \<le> c \<and> c \<le> 8202) \<or> c = 8232 \<or> c = 8233 \<or> c = 8239 \<or> c = 8287 \<or> c = 12288"

text \<open>
  \<^verbatim>\<open>\d\<close> in a \<^verbatim>\<open>str\<close> pattern matches every decimal digit of the Unicode database
  (category Nd), not only \<^verbatim>\<open>0-9\<close>. The ranges are those of Unicode 14.0 (CPython 3.11).
\<close>

definition digit_ranges :: "(nat \<times> nat) list" where
  "digit_ranges =
    [(48, 57), (1632, 1641), (1776, 1785), (1984, 1993), (2406, 2415), (2534, 2543), (2662,
     2671), (2790, 2799), (2918, 2927), (3046, 3055), (3174, 3183), (3302, 3311), (3430,
     3439), (3558, 3567), (3664, 3673), (3792, 3801), (3872, 3881), (4160, 4169), (4240,
     4249), (6112, 6121), (6160, 6169), (6470, 6479), (6608, 6617), (6784, 6793), (6800,
     6809), (6992, 7001), (7088, 7097), (7232, 7241), (7248, 7257), (42528, 42537), (43216,
     43225), (43264, 43273), (43472, 43481), (43504, 43513), (43600, 43609), (44016, 44025),
     (65296, 65305), (66720, 66729), (68912, 68921), (69734, 69743), (69872, 69881), (69942,
     69951), (70096, 70105), (70384, 70393), (70736, 70745), (70864, 70873), (71248, 71257),
     (71360, 71369), (71472, 71481), (71904, 71913), (72016, 72025), (72784, 72793), (73040,
     73049), (73120, 73129), (92768, 92777), (92864, 92873), (93008, 93017), (120782,
     120831), (123200, 123209), (123632, 123641), (125264, 125273), (130032, 130041)]"

definition is_digit :: "nat \<Rightarrow> bool" where
  "is_digit c = list_ex (\<lambda>(lo, hi). lo \<le> c \<and> c \<le> hi) digit_ranges"

text \<open>The explicit classes \<^verbatim>\<open>[A-Z]\<close> and \<^verbatim>\<open>[a-zA-Z0-9]\<close> of the patterns.\<close>

definition ascii_upper :: "nat \<Rightarrow> bool" where
  "ascii_upper c \<longleftrightarrow> 65 \<le> c \<and> c \<le> 90"

definition ascii_lower :: "nat \<Rightarrow> bool" where
  "ascii_lower c \<longleftrightarrow> 97 \<le> c \<and> c \<le> 122"

definition ascii_digit :: "nat \<Rightarrow> bool" where
  "ascii_digit c \<longleftrightarrow> 48 \<le> c \<and> c \<le> 57"

definition ascii_alnum :: "nat \<Rightarrow> bool" where
  "ascii_alnum c \<longleftrightarrow> ascii_lower c \<or> ascii_upper c \<or> ascii_digit c"

subsection \<open>The string methods the script calls\<close>

text \<open>\<^verbatim>\<open>s.strip()\<close>, \<^verbatim>\<open>s.rstrip('.')\<close>, \<^verbatim>\<open>s.replace(a, b)\<close> for one-character
  \<open>a\<close> and \<open>b\<close>, \<^verbatim>\<open>s.replace(a, '')\<close>, \<^verbatim>\<open>s.split()\<close> and \<^verbatim>\<open>sep.join(ws)\<close>.\<close>

definition strip :: "ustr \<Rightarrow> ustr" where
  "strip s = rev (dropWhile is_space (rev (dropWhile is_space s)))"

definition rstrip_char :: "nat \<Rightarrow> ustr \<Rightarrow> ustr" where
  "rstrip_char a s = rev (dropWhile (\<lambda>c. c = a) (rev s))"

definition replace_char :: "nat \<Rightarrow> nat \<Rightarrow> ustr \<Rightarrow> ustr" where
  "replace_char a b s = map (\<lambda>c. if c = a then b else c) s"

definition remove_char :: "nat \<Rightarrow> ustr \<Rightarrow> ustr" where
  "remove_char a s = filter (\<lambda>c. c \<noteq> a) s"

text \<open>\<open>split_from w s\<close> scans \<open>s\<close> with the word \<open>w\<close> read so far: whitespace ends a
  word, runs of whitespace give no empty word.\<close>

fun split_from :: "ustr \<Rightarrow> ustr \<Rightarrow> ustr list" where
  "split_from w [] = (if w = [] then [] else [w])"
| "split_from w (c # cs) =
     (if is_space c then (if w = [] then split_from [] cs else w # split_from [] cs)
      else split_from (w @ [c]) cs)"

definition split_words :: "ustr \<Rightarrow> ustr list" where
  "split_words s = split_from [] s"

fun join :: "ustr \<Rightarrow> ustr list \<Rightarrow> ustr" where
  "join sep [] = []"
| "join sep [w] = w"
| "join sep (w # v # ws) = w @ sep @ join sep (v # ws)"

text \<open>\<^verbatim>\<open>w.lower()\<close> on the words that reach it: the substitution before the split keeps
  only \<^verbatim>\<open>[a-zA-Z0-9]\<close> and whitespace, and on those lower-casing is the ASCII one.\<close>

definition lower :: "ustr \<Rightarrow> ustr" where
  "lower w = map (\<lambda>c. if ascii_upper c then c + 32 else c) w"

section \<open>Anchor derivation\<close>

text \<open>
  \<^verbatim>\<open>re.sub(r'<[^>]+>', '', text)\<close>: scanning from the left, a \<^verbatim>\<open><\<close> followed by at
  least one character other than \<^verbatim>\<open>>\<close> and then a \<^verbatim>\<open>>\<close> is removed with all it
  spans, and the scan goes on behind it. The class \<^verbatim>\<open>[^>]+\<close> is greedy and stops only at
  a \<^verbatim>\<open>>\<close> or at the end, so giving characters back can never make the match succeed.
\<close>

function strip_tags :: "ustr \<Rightarrow> ustr" where
  "strip_tags [] = []"
| "strip_tags (c # cs) =
     (if c = 60 \<and> takeWhile (\<lambda>x. x \<noteq> 62) cs \<noteq> [] \<and> dropWhile (\<lambda>x. x \<noteq> 62) cs \<noteq> []
      then strip_tags (tl (dropWhile (\<lambda>x. x \<noteq> 62) cs))
      else c # strip_tags cs)"
  by pat_completeness auto
termination
proof (relation "measure length")
  show "wf (measure (length :: ustr \<Rightarrow> nat))" by simp
next
  fix c :: nat and cs :: ustr
  have "length (tl (dropWhile (\<lambda>x. x \<noteq> 62) cs)) \<le> length cs"
    using length_dropWhile_le [of "\<lambda>x. x \<noteq> 62" cs] by simp
  then show "(tl (dropWhile (\<lambda>x. x \<noteq> 62) cs), c # cs) \<in> measure length" by simp
next
  fix c :: nat and cs :: ustr
  show "(cs, c # cs) \<in> measure length" by simp
qed

text \<open>
  The first alternative of the pattern, \<^verbatim>\<open>\d+\.[\d.]*\s*\<close>, anchored at the start. The
  result is the matched text. After the greedy \<^verbatim>\<open>\d+\<close> the next character is no digit,
  so only the full run of digits can be followed by the dot; the two starred classes
  end the pattern and always succeed.
\<close>

definition match_number :: "ustr \<Rightarrow> ustr option" where
  "match_number s =
     (let ds = takeWhile is_digit s; r1 = dropWhile is_digit s in
      if ds = [] then None
      else case r1 of
             [] \<Rightarrow> None
           | c # r2 \<Rightarrow>
               if c = 46 then
                 let m = takeWhile (\<lambda>x. is_digit x \<or> x = 46) r2;
                     r3 = dropWhile (\<lambda>x. is_digit x \<or> x = 46) r2
                 in Some (ds @ [46] @ m @ takeWhile is_space r3)
               else None)"

text \<open>
  The second alternative, \<^verbatim>\<open>Appendix\s+[A-Z][\.:]\s*\<close>. After the greedy \<^verbatim>\<open>\s+\<close> the
  next character is no whitespace, so only the full run can be followed by the letter.
\<close>

definition match_appendix :: "ustr \<Rightarrow> ustr option" where
  "match_appendix s =
     (if prefix (u ''Appendix'') s then
        let r1 = drop 8 s; ws = takeWhile is_space r1; r2 = dropWhile is_space r1 in
        if ws = [] then None
        else case r2 of
               c # d # r3 \<Rightarrow>
                 if ascii_upper c \<and> (d = 46 \<or> d = 58)
                 then Some (u ''Appendix'' @ ws @ [c, d] @ takeWhile is_space r3)
                 else None
             | _ \<Rightarrow> None
      else None)"

text \<open>\<^verbatim>\<open>re.match(r'^(\d+\.[\d.]*\s*|Appendix\s+[A-Z][\.:]\s*)', clean)\<close>: the alternatives
  in order; the value is \<^verbatim>\<open>m.group(0)\<close>, or \<open>None\<close> when there is no match.\<close>

definition re_match :: "ustr \<Rightarrow> ustr option" where
  "re_match s = (case match_number s of Some m \<Rightarrow> Some m | None \<Rightarrow> match_appendix s)"

text \<open>\<^verbatim>\<open>m.group(0).strip().rstrip('.').replace('.', '_').replace(' ', '_').replace(':', '')\<close>\<close>

definition normalize_match :: "ustr \<Rightarrow> ustr" where
  "normalize_match m =
     remove_char 58 (replace_char 32 95 (replace_char 46 95 (rstrip_char 46 (strip m))))"

text \<open>\<^verbatim>\<open>re.sub(r'[^a-zA-Z0-9\s]', '', clean).split()[:4]\<close>, each word lower-cased and the
  words joined by an underscore.\<close>

definition fallback :: "ustr \<Rightarrow> ustr" where
  "fallback clean =
     join [95] (map lower (take 4 (split_words (filter (\<lambda>c. ascii_alnum c \<or> is_space c) clean))))"

definition make_anchor :: "ustr \<Rightarrow> ustr" where
  "make_anchor text =
     (let clean = strip_tags text in
      case re_match clean of
        Some m \<Rightarrow> u ''sec_'' @ normalize_match m
      | None \<Rightarrow> u ''sec_'' @ fallback clean)"

section \<open>The table of contents\<close>


text \<open>The anchor computed in the loop over \<open>toc_entries\<close>, from the entry's number.\<close>

definition toc_anchor :: "ustr \<Rightarrow> ustr" where
  "toc_anchor num =
     (let num_clean = rstrip_char 46 num;
          anchor = u ''sec_'' @ replace_char 46 95 num_clean
      in if num_clean = u ''A'' \<or> num_clean = u ''B''
         then u ''sec_Appendix_'' @ num_clean
         else anchor)"




section \<open>The story and the buffered headings\<close>

text \<open>
  The story is the list of flowables handed to the renderer. The script appends plain
  flowables and \<^verbatim>\<open>KeepTogether\<close> groups of them. Constant arguments of the constructors
  (the content width, the width 1 of a spacer) are left out; the column widths of a
  table are fractions that are only passed on.
\<close>

datatype style = H1 | H2 | H3 | Body | Body_small | TS | TE

datatype flowable =
    Paragraph ustr style
  | AccentBar
  | Spacer int
  | PageBreak
  | CalloutBox ustr ustr ustr
  | CodeBlock ustr ustr
  | CardTable "ustr list" "ustr list list" "rat list" "nat list option"
  | StepIndicator int ustr ustr bool

datatype item = Flowable flowable | KeepTogether "flowable list"

record composer =
  story :: "item list"
  pending_heading :: "flowable list"

definition flush_heading :: "composer \<Rightarrow> composer" where
  "flush_heading s =
     (if pending_heading s \<noteq> []
      then s\<lparr>story := story s @ map Flowable (pending_heading s), pending_heading := []\<rparr>
      else s)"

definition flush_heading_with :: "flowable \<Rightarrow> composer \<Rightarrow> composer" where
  "flush_heading_with content_flowable s =
     (if pending_heading s \<noteq> []
      then s\<lparr>story := story s @ [KeepTogether (pending_heading s @ [content_flowable])],
             pending_heading := []\<rparr>
      else s\<lparr>story := story s @ [Flowable content_flowable]\<rparr>)"

text \<open>The text of a heading paragraph: \<^verbatim>\<open><a name="anchor"/>\<close> before the heading text.\<close>

definition anchored :: "ustr \<Rightarrow> ustr \<Rightarrow> ustr" where
  "anchored anchor text = u ''<a name='' @ [34] @ anchor @ [34] @ u ''/>'' @ text"

definition section_heading :: "ustr \<Rightarrow> composer \<Rightarrow> composer" where
  "section_heading text s =
     (let s1 = flush_heading s;
          anchor = make_anchor text;
          s2 = s1\<lparr>story := story s1 @ [Flowable PageBreak]\<rparr>
      in s2\<lparr>pending_heading := pending_heading s2 @
               [Paragraph (anchored anchor text) H1, AccentBar, Spacer 12]\<rparr>)"

definition sub_heading :: "ustr \<Rightarrow> composer \<Rightarrow> composer" where
  "sub_heading text s =
     (let s1 = flush_heading s;
          anchor = make_anchor text
      in s1\<lparr>pending_heading := pending_heading s1 @
               [Spacer 16, Paragraph (anchored anchor text) H2, Spacer 6]\<rparr>)"

definition sub_sub_heading :: "ustr \<Rightarrow> composer \<Rightarrow> composer" where
  "sub_sub_heading text s =
     (let s1 = flush_heading s;
          anchor = make_anchor text
      in s1\<lparr>pending_heading := pending_heading s1 @
               [Spacer 12, Paragraph (anchored anchor text) H3, Spacer 4]\<rparr>)"

definition body :: "ustr \<Rightarrow> composer \<Rightarrow> composer" where
  "body text s = flush_heading_with (Paragraph text Body) s"

definition body_small :: "ustr \<Rightarrow> composer \<Rightarrow> composer" where
  "body_small text s = flush_heading_with (Paragraph text Body_small) s"

definition spacer :: "int \<Rightarrow> composer \<Rightarrow> composer" where
  "spacer h s = (let s1 = flush_heading s in s1\<lparr>story := story s1 @ [Flowable (Spacer h)]\<rparr>)"

definition analogy :: "ustr \<Rightarrow> composer \<Rightarrow> composer" where
  "analogy text s = flush_heading_with (CalloutBox text (u ''note'') (u ''ANALOGY'')) s"

definition info_box :: "ustr \<Rightarrow> ustr \<Rightarrow> composer \<Rightarrow> composer" where
  "info_box text title s = flush_heading_with (CalloutBox text (u ''info'') title) s"

definition warning_box :: "ustr \<Rightarrow> ustr \<Rightarrow> composer \<Rightarrow> composer" where
  "warning_box text title s = flush_heading_with (CalloutBox text (u ''warning'') title) s"

definition critical_box :: "ustr \<Rightarrow> ustr \<Rightarrow> composer \<Rightarrow> composer" where
  "critical_box text title s = flush_heading_with (CalloutBox text (u ''critical'') title) s"

definition code :: "ustr \<Rightarrow> ustr \<Rightarrow> composer \<Rightarrow> composer" where
  "code text lang s = flush_heading_with (CodeBlock text lang) s"

definition table ::
  "ustr list \<Rightarrow> ustr list list \<Rightarrow> rat list \<Rightarrow> nat list option \<Rightarrow> composer \<Rightarrow> composer" where
  "table headers rows col_widths highlight_cols s =
     flush_heading_with (CardTable headers rows col_widths highlight_cols) s"

text \<open>
  The script is a sequence of calls of these functions at top level; step indicators
  are handed to \<open>flush_heading_with\<close> directly. Default arguments are written out.
\<close>

datatype call =
    Section_heading ustr
  | Sub_heading ustr
  | Sub_sub_heading ustr
  | Body_text ustr
  | Body_small_text ustr
  | Spacer_of int
  | Analogy ustr
  | Info_box ustr ustr
  | Warning_box ustr ustr
  | Critical_box ustr ustr
  | Code ustr ustr
  | Table "ustr list" "ustr list list" "rat list" "nat list option"
  | Flush_heading_with flowable

fun exec :: "call \<Rightarrow> composer \<Rightarrow> composer" where
  "exec (Section_heading t) s = section_heading t s"
| "exec (Sub_heading t) s = sub_heading t s"
| "exec (Sub_sub_heading t) s = sub_sub_heading t s"
| "exec (Body_text t) s = body t s"
| "exec (Body_small_text t) s = body_small t s"
| "exec (Spacer_of h) s = spacer h s"
| "exec (Analogy t) s = analogy t s"
| "exec (Info_box t title) s = info_box t title s"
| "exec (Warning_box t title) s = warning_box t title s"
| "exec (Critical_box t title) s = critical_box t title s"
| "exec (Code t lang) s = code t lang s"
| "exec (Table hs rows ws hl) s = table hs rows ws hl s"
| "exec (Flush_heading_with f) s = flush_heading_with f s"

fun run :: "call list \<Rightarrow> composer \<Rightarrow> composer" where
  "run [] s = s"
| "run (c # cs) s = run cs (exec c s)"

text \<open>A fresh story and an empty buffer; the last statement before the build flushes
  a trailing heading.\<close>

definition initial :: "composer" where
  "initial = \<lparr>story = [], pending_heading = []\<rparr>"

definition build :: "call list \<Rightarrow> item list" where
  "build cs = story (flush_heading (run cs initial))"

text \<open>The flowables a call constructs, in the order it constructs them, and the
  flowables of a story, groups opened.\<close>

fun constructed :: "call \<Rightarrow> flowable list" where
  "constructed (Section_heading t) =
     [PageBreak, Paragraph (anchored (make_anchor t) t) H1, AccentBar, Spacer 12]"
| "constructed (Sub_heading t) =
     [Spacer 16, Paragraph (anchored (make_anchor t) t) H2, Spacer 6]"
| "constructed (Sub_sub_heading t) =
     [Spacer 12, Paragraph (anchored (make_anchor t) t) H3, Spacer 4]"
| "constructed (Body_text t) = [Paragraph t Body]"
| "constructed (Body_small_text t) = [Paragraph t Body_small]"
| "constructed (Spacer_of h) = [Spacer h]"
| "constructed (Analogy t) = [CalloutBox t (u ''note'') (u ''ANALOGY'')]"
| "constructed (Info_box t title) = [CalloutBox t (u ''info'') title]"
| "constructed (Warning_box t title) = [CalloutBox t (u ''warning'') title]"
| "constructed (Critical_box t title) = [CalloutBox t (u ''critical'') title]"
| "constructed (Code t lang) = [CodeBlock t lang]"
| "constructed (Table hs rows ws hl) = [CardTable hs rows ws hl]"
| "constructed (Flush_heading_with f) = [f]"

fun flowables_of :: "item \<Rightarrow> flowable list" where
  "flowables_of (Flowable f) = [f]"
| "flowables_of (KeepTogether fs) = fs"

definition flat :: "item list \<Rightarrow> flowable list" where
  "flat items = concat (map flowables_of items)"

text \<open>What a heading call leaves in the buffer.\<close>

fun buffered :: "call \<Rightarrow> flowable list" where
  "buffered (Section_heading t) =
     [Paragraph (anchored (make_anchor t) t) H1, AccentBar, Spacer 12]"
| "buffered (Sub_heading t) =
     [Spacer 16, Paragraph (anchored (make_anchor t) t) H2, Spacer 6]"
| "buffered (Sub_sub_heading t) =
     [Spacer 12, Paragraph (anchored (make_anchor t) t) H3, Spacer 4]"
| "buffered c = []"

section \<open>Notions used to state the properties\<close>

text \<open>The leading run of digits and dots of a text: what the first alternative of the
  pattern matches before its trailing whitespace.\<close>

definition numeral_run :: "ustr \<Rightarrow> ustr" where
  "numeral_run s = takeWhile (\<lambda>c. is_digit c \<or> c = 46) s"










section \<open>Facts about the library functions\<close>

subsection \<open>Character classes\<close>

lemma is_digit_small: "c < 1632 \<Longrightarrow> is_digit c = ascii_digit c"
  unfolding is_digit_def digit_ranges_def ascii_digit_def by auto


lemma digit_not_punct:
  "is_digit c \<Longrightarrow> c \<noteq> 32 \<and> c \<noteq> 34 \<and> c \<noteq> 46 \<and> c \<noteq> 58 \<and> c \<noteq> 60 \<and> c \<noteq> 62 \<and> c \<noteq> 95"
  using is_digit_small [of c] by (auto simp: ascii_digit_def)


lemma space_not_punct:
  "is_space c \<Longrightarrow> c \<noteq> 34 \<and> c \<noteq> 46 \<and> c \<noteq> 58 \<and> c \<noteq> 60 \<and> c \<noteq> 62 \<and> c \<noteq> 95"
  by (auto simp: is_space_def)

subsection \<open>The string methods\<close>

lemma rev_dropWhile_rev_append:
  "\<forall>c \<in> set ws. P c \<Longrightarrow> rev (dropWhile P (rev (s @ ws))) = rev (dropWhile P (rev s))"
  by (induction ws rule: rev_induct) simp_all

lemma rev_dropWhile_rev_id:
  "s \<noteq> [] \<Longrightarrow> \<not> P (last s) \<Longrightarrow> rev (dropWhile P (rev s)) = s"
  by (cases s rule: rev_cases) simp_all

lemma strip_token:
  assumes "t \<noteq> []" "\<not> is_space (hd t)" "\<not> is_space (last t)" "\<forall>c \<in> set ws. is_space c"
  shows "strip (t @ ws) = t"
proof -
  from assms(1,2) have "dropWhile is_space (t @ ws) = t @ ws"
    by (cases t) simp_all
  then have "strip (t @ ws) = rev (dropWhile is_space (rev (t @ ws)))"
    by (simp add: strip_def)
  also have "\<dots> = rev (dropWhile is_space (rev t))"
    using assms(4) by (rule rev_dropWhile_rev_append)
  also have "\<dots> = t"
    using assms(1,3) by (rule rev_dropWhile_rev_id)
  finally show ?thesis .
qed

lemma replace_char_id: "a \<notin> set s \<Longrightarrow> replace_char a b s = s"
  by (induction s) (simp_all add: replace_char_def)

lemma remove_char_id: "a \<notin> set s \<Longrightarrow> remove_char a s = s"
  by (induction s) (simp_all add: remove_char_def)


lemma set_replace_char: "set (replace_char a b s) \<subseteq> insert b (set s - {a})"
  by (auto simp: replace_char_def)

subsection \<open>Tag stripping\<close>


lemma strip_tags_plain: "60 \<notin> set a \<Longrightarrow> strip_tags (a @ b) = a @ strip_tags b"
  by (induction a) simp_all


subsection \<open>The two alternatives of the pattern\<close>

lemma takeWhile_weaker:
  "(\<And>x. Q x \<Longrightarrow> P x) \<Longrightarrow> takeWhile P xs = takeWhile Q xs @ takeWhile P (dropWhile Q xs)"
  by (induction xs) auto

lemma dropWhile_weaker:
  "(\<And>x. Q x \<Longrightarrow> P x) \<Longrightarrow> dropWhile P xs = dropWhile P (dropWhile Q xs)"
  by (induction xs) auto

lemma hd_dropWhile_not: "dropWhile Q xs = c # r \<Longrightarrow> \<not> Q c"
  using hd_dropWhile [of Q xs] by auto

lemma match_number_eq:
  "match_number s =
     (if numeral_run s \<noteq> [] \<and> is_digit (hd (numeral_run s)) \<and> 46 \<in> set (numeral_run s)
      then Some (numeral_run s @ takeWhile is_space (dropWhile (\<lambda>c. is_digit c \<or> c = 46) s))
      else None)"
proof -
  let ?P = "\<lambda>c. is_digit c \<or> c = 46"
  let ?ds = "takeWhile is_digit s" and ?r1 = "dropWhile is_digit s"
  have t: "numeral_run s = ?ds @ takeWhile ?P ?r1"
    unfolding numeral_run_def by (rule takeWhile_weaker) simp
  have d: "dropWhile ?P s = dropWhile ?P ?r1"
    by (rule dropWhile_weaker) simp
  have nd: "46 \<notin> set ?ds"
    using digit_not_punct by (auto dest: set_takeWhileD)
  show ?thesis
  proof (cases "?ds = []")
    case True
    then have "?r1 = s" by (cases s) (auto split: if_splits)
    with True t have "numeral_run s = takeWhile ?P s" by simp
    moreover from True have "s = [] \<or> \<not> is_digit (hd s)" by (cases s) (auto split: if_splits)
    ultimately have "numeral_run s = [] \<or> \<not> is_digit (hd (numeral_run s))"
      by (cases s) (auto split: if_splits)
    with True show ?thesis by (auto simp: match_number_def)
  next
    case ds: False
    then have hd: "is_digit (hd ?ds)"
      using set_takeWhileD [of "hd ?ds" is_digit s] hd_in_set [of ?ds] by blast
    show ?thesis
    proof (cases ?r1)
      case Nil
      with t nd ds show ?thesis
        by (simp add: match_number_def del: dropWhile_eq_Nil_conv)
    next
      case (Cons c r2)
      then have nc: "\<not> is_digit c" by (rule hd_dropWhile_not)
      show ?thesis
      proof (cases "c = 46")
        case True
        with Cons t have t': "numeral_run s = ?ds @ 46 # takeWhile ?P r2" by simp
        from True Cons d have d': "dropWhile ?P s = dropWhile ?P r2" by simp
        from ds hd t' d' True Cons show ?thesis
          by (simp add: match_number_def Let_def)
      next
        case False
        with nc Cons t have "numeral_run s = ?ds" by simp
        with nd ds False Cons show ?thesis by (simp add: match_number_def)
      qed
    qed
  qed
qed




lemma replace_char_append:
  "replace_char a b (x @ y) = replace_char a b x @ replace_char a b y"
  by (simp add: replace_char_def)

lemma remove_char_append: "remove_char a (x @ y) = remove_char a x @ remove_char a y"
  by (simp add: remove_char_def)

lemma normalize_appendix:
  assumes "ws \<noteq> []" "\<forall>x \<in> set ws. is_space x" "ascii_upper c" "d = 46 \<or> d = 58"
    "\<forall>x \<in> set ws2. is_space x"
  shows "normalize_match (u ''Appendix'' @ ws @ [c, d] @ ws2) = u ''Appendix'' @ replace_char 32 95 ws @ [c]"
proof -
  let ?A = "u ''Appendix''"
  let ?t = "?A @ ws @ [c, d]"
  let ?r = "?A @ ws @ (if d = 46 then [c] else [c, d])"
  have dn: "\<not> is_space d" using assms(4) by (auto simp: is_space_def)
  have "strip (?t @ ws2) = ?t"
    using dn assms(5) by (intro strip_token) (simp_all add: u_def is_space_def)
  then have st: "strip (?A @ ws @ [c, d] @ ws2) = ?t" by simp
  have c': "c \<noteq> 46 \<and> c \<noteq> 32 \<and> c \<noteq> 58" using assms(3) by (auto simp: ascii_upper_def)
  have A: "46 \<notin> set ?A \<and> 32 \<notin> set ?A \<and> 58 \<notin> set ?A" by (simp add: u_def)
  have A32: "replace_char 32 95 ?A = ?A" using A by (intro replace_char_id) simp
  have A58: "remove_char 58 ?A = ?A" using A by (intro remove_char_id) simp
  have w46: "46 \<notin> set ws" and w58: "58 \<notin> set ws"
    using assms(2) space_not_punct by auto
  have r58: "remove_char 58 (replace_char 32 95 ws) = replace_char 32 95 ws"
    using set_replace_char [of 32 95 ws] w58 by (intro remove_char_id) auto
  have rs: "rstrip_char 46 ?t = ?r"
    using c' by (simp add: rstrip_char_def)
  have "46 \<notin> set ?r" using A w46 c' assms(4) by auto
  then have r1: "replace_char 46 95 ?r = ?r" by (rule replace_char_id)
  have tl32: "replace_char 32 95 (if d = 46 then [c] else [c, d]) = (if d = 46 then [c] else [c, d])"
    using c' assms(4) by (intro replace_char_id) auto
  have r2: "replace_char 32 95 ?r = ?A @ replace_char 32 95 ws @ (if d = 46 then [c] else [c, d])"
    by (simp only: replace_char_append tl32 A32)
  have tl58: "remove_char 58 (if d = 46 then [c] else [c, d]) = [c]"
    using c' assms(4) by (auto simp: remove_char_def)
  have r3: "remove_char 58 (?A @ replace_char 32 95 ws @ (if d = 46 then [c] else [c, d])) =
              ?A @ replace_char 32 95 ws @ [c]"
    by (simp only: remove_char_append tl58 A58 r58)
  show ?thesis
    unfolding normalize_match_def st rs r1 r2 r3 ..
qed


subsection \<open>The code and the wording of the specification\<close>













subsection \<open>Appendix headings\<close>

lemma appendix_anchor:
  assumes "ascii_upper L" "d = 46 \<or> d = 58"
  shows "make_anchor (u ''Appendix '' @ [L, d] @ rest) = u ''sec_Appendix_'' @ [L]"
proof -
  let ?r = "strip_tags rest"
  let ?s = "u ''Appendix '' @ [L, d] @ ?r"
  have L: "L \<noteq> 60" "\<not> is_space L" "\<not> is_digit L" "L \<noteq> 46"
    using assms(1) is_digit_small [of L]
    by (auto simp: ascii_upper_def is_space_def ascii_digit_def)
  have "60 \<notin> set (u ''Appendix '' @ [L, d])"
    using L assms(2) by (auto simp: u_def)
  then have "strip_tags ((u ''Appendix '' @ [L, d]) @ rest) = (u ''Appendix '' @ [L, d]) @ ?r"
    by (rule strip_tags_plain)
  then have st: "strip_tags (u ''Appendix '' @ [L, d] @ rest) = ?s" by simp
  have "\<not> is_digit 65" by (simp add: is_digit_small ascii_digit_def)
  then have "numeral_run ?s = []" by (simp add: numeral_run_def u_def)
  then have mn: "match_number ?s = None" by (simp add: match_number_eq)
  have sp: "is_space 32" by (simp add: is_space_def)
  have ma: "match_appendix ?s = Some (u ''Appendix'' @ [32] @ [L, d] @ takeWhile is_space ?r)"
    using L assms sp by (simp add: match_appendix_def u_def)
  have "normalize_match (u ''Appendix'' @ [32] @ [L, d] @ takeWhile is_space ?r) =
          u ''Appendix'' @ replace_char 32 95 [32] @ [L]"
    using assms by (intro normalize_appendix) (auto simp: is_space_def dest: set_takeWhileD)
  with st mn ma show ?thesis
    by (simp add: make_anchor_def re_match_def replace_char_def u_def)
qed

subsection \<open>The characters of an anchor\<close>










section \<open>Properties of the anchors\<close>









text \<open>
  Claim C3: for the letters A and B the anchor written out in the table of contents for
  an entry whose number is the letter followed by any number of dots, such as the
  entry \<^verbatim>\<open>A.\<close> (\<^verbatim>\<open>B.\<close>), is the anchor \<open>make_anchor\<close> derives, through the second
  alternative of its pattern, from a heading \<^verbatim>\<open>Appendix A: \<close> (\<^verbatim>\<open>Appendix B: \<close>) followed
  by any title; both give \<^verbatim>\<open>sec_Appendix_A\<close> for \<^verbatim>\<open>Appendix A: Notation Reference\<close>, and
  \<^verbatim>\<open>sec_Appendix_B\<close> for \<^verbatim>\<open>Appendix B: Test Coverage\<close>.
\<close>

theorem appendix_anchor_coherence:
  "toc_anchor (u ''A'' @ replicate n 46) = u ''sec_Appendix_A'' \<and>
   toc_anchor (u ''B'' @ replicate n 46) = u ''sec_Appendix_B'' \<and>
   toc_anchor (u ''A.'') = u ''sec_Appendix_A'' \<and>
   toc_anchor (u ''B.'') = u ''sec_Appendix_B'' \<and>
   make_anchor (u ''Appendix A: '' @ title) = toc_anchor (u ''A.'') \<and>
   make_anchor (u ''Appendix B: '' @ title) = toc_anchor (u ''B.'') \<and>
   make_anchor (u ''Appendix A: Notation Reference'') = u ''sec_Appendix_A'' \<and>
   make_anchor (u ''Appendix B: Test Coverage'') = u ''sec_Appendix_B''"
proof -
  have dots: "rstrip_char 46 (l # replicate n 46) = [l]" if "l \<noteq> 46" for l :: nat
    using that by (simp add: rstrip_char_def dropWhile_append3 flip: replicate_append_same)
  have na: "toc_anchor (u ''A'' @ replicate n 46) = u ''sec_Appendix_A''"
    and nb: "toc_anchor (u ''B'' @ replicate n 46) = u ''sec_Appendix_B''"
    using dots [of 65] dots [of 66] by (simp_all add: toc_anchor_def u_def)
  have a: "toc_anchor (u ''A.'') = u ''sec_Appendix_A''"
    and b: "toc_anchor (u ''B.'') = u ''sec_Appendix_B''"
    by (simp_all add: toc_anchor_def rstrip_char_def replace_char_def u_def)
  have "make_anchor (u ''Appendix '' @ [65, 58] @ (32 # t)) = u ''sec_Appendix_'' @ [65]" for t
    by (rule appendix_anchor) (simp_all add: ascii_upper_def)
  then have ga: "make_anchor (u ''Appendix A: '' @ t) = u ''sec_Appendix_A''" for t
    by (simp add: u_def)
  have "make_anchor (u ''Appendix '' @ [66, 58] @ (32 # t)) = u ''sec_Appendix_'' @ [66]" for t
    by (rule appendix_anchor) (simp_all add: ascii_upper_def)
  then have gb: "make_anchor (u ''Appendix B: '' @ t) = u ''sec_Appendix_B''" for t
    by (simp add: u_def)
  have "make_anchor (u ''Appendix A: '' @ u ''Notation Reference'') = u ''sec_Appendix_A''"
    and "make_anchor (u ''Appendix B: '' @ u ''Test Coverage'') = u ''sec_Appendix_B''"
    by (rule ga, rule gb)
  then have "make_anchor (u ''Appendix A: Notation Reference'') = u ''sec_Appendix_A''"
    and "make_anchor (u ''Appendix B: Test Coverage'') = u ''sec_Appendix_B''"
    by (simp_all add: u_def)
  with na nb a b ga gb show ?thesis by simp
qed

section \<open>Properties of the table of contents\<close>









section \<open>Properties of the story and the buffer\<close>

lemma story_flush_heading:
  "story (flush_heading s) = story s @ map Flowable (pending_heading s)"
  by (simp add: flush_heading_def)

lemma pending_flush_heading: "pending_heading (flush_heading s) = []"
  by (simp add: flush_heading_def)

lemma pending_flush_heading_with: "pending_heading (flush_heading_with f s) = []"
  by (simp add: flush_heading_with_def)

lemma flat_append: "flat (xs @ ys) = flat xs @ flat ys"
  by (simp add: flat_def)

lemma flat_map_Flowable: "flat (map Flowable fs) = fs"
  by (induction fs) (simp_all add: flat_def)

lemma flat_flush_heading_with:
  "flat (story (flush_heading_with f s)) = flat (story s) @ pending_heading s @ [f]"
  by (simp add: flush_heading_with_def flat_def)

lemma pending_exec: "pending_heading (exec c s) = buffered c"
  by (cases c)
    (simp_all add: section_heading_def sub_heading_def sub_sub_heading_def body_def
      body_small_def spacer_def analogy_def info_box_def warning_box_def critical_box_def
      code_def table_def Let_def pending_flush_heading pending_flush_heading_with)

lemma flat_exec:
  "flat (story (exec c s)) @ pending_heading (exec c s) =
     flat (story s) @ pending_heading s @ constructed c"
  by (cases c)
    (simp_all add: section_heading_def sub_heading_def sub_sub_heading_def body_def
      body_small_def spacer_def analogy_def info_box_def warning_box_def critical_box_def
      code_def table_def Let_def pending_flush_heading story_flush_heading
      flat_append flat_map_Flowable flat_flush_heading_with pending_flush_heading_with,
     simp_all add: flat_def)

lemma flat_run:
  "flat (story (run cs s)) @ pending_heading (run cs s) =
     flat (story s) @ pending_heading s @ concat (map constructed cs)"
  by (induction cs arbitrary: s) (simp_all add: flat_exec)

lemma pending_run: "cs \<noteq> [] \<Longrightarrow> pending_heading (run cs s) = buffered (last cs)"
  by (induction cs arbitrary: s) (auto simp: pending_exec)

lemma story_exec_prefix: "prefix (story s) (story (exec c s))"
  by (cases c)
    (simp_all add: section_heading_def sub_heading_def sub_sub_heading_def body_def
      body_small_def spacer_def analogy_def info_box_def warning_box_def critical_box_def
      code_def table_def Let_def story_flush_heading flush_heading_with_def)

lemma story_run_prefix: "prefix (story s) (story (run cs s))"
proof (induction cs arbitrary: s)
  case Nil
  show ?case by simp
next
  case (Cons c cs)
  have "prefix (story s) (story (exec c s))" by (rule story_exec_prefix)
  also have "prefix (story (exec c s)) (story (run cs (exec c s)))" by (rule Cons.IH)
  finally show ?case by simp
qed


text \<open>
  Claim C8: for every sequence of calls followed by the final flush, the flowables of
  the finished story, groups opened, are exactly the flowables the calls constructed,
  each once and in the order of construction. A level-1 heading followed at once by
  the final flush puts its four flowables into the story, each once.
\<close>

theorem conservation:
  "flat (build cs) = concat (map constructed cs) \<and>
   build [Section_heading x] =
     [Flowable PageBreak, Flowable (Paragraph (anchored (make_anchor x) x) H1),
      Flowable AccentBar, Flowable (Spacer 12)]"
proof
  have "flat (story (flush_heading (run cs initial))) =
          flat (story (run cs initial)) @ pending_heading (run cs initial)"
    by (simp add: story_flush_heading flat_append flat_map_Flowable)
  also have "\<dots> = flat (story initial) @ pending_heading initial @ concat (map constructed cs)"
    by (rule flat_run)
  also have "\<dots> = concat (map constructed cs)"
    by (simp add: initial_def flat_def)
  finally show "flat (build cs) = concat (map constructed cs)"
    by (simp add: build_def)
next
  show "build [Section_heading x] =
     [Flowable PageBreak, Flowable (Paragraph (anchored (make_anchor x) x) H1),
      Flowable AccentBar, Flowable (Spacer 12)]"
    by (simp add: build_def initial_def section_heading_def flush_heading_def)
qed


text \<open>
  Claim C6: after any sequence of calls the buffer holds what the last call buffered:
  the three flowables of that one heading, or nothing. Each of the three heading
  functions first moves the buffered flowables to the story as they are, outside any
  group. Two level-1 headings in a row put the first heading's flowables into the
  story ungrouped (and the second page break, which is never buffered) and leave the
  second heading's title, accent bar and spacer in the buffer.
\<close>

theorem buffer_single_occupancy:
  "pending_heading (run cs initial) = (if cs = [] then [] else buffered (last cs)) \<and>
   story (section_heading t s) = story s @ map Flowable (pending_heading s) @ [Flowable PageBreak] \<and>
   story (sub_heading t s) = story s @ map Flowable (pending_heading s) \<and>
   story (sub_sub_heading t s) = story s @ map Flowable (pending_heading s) \<and>
   run [Section_heading x, Section_heading y] initial =
     \<lparr>story = [Flowable PageBreak, Flowable (Paragraph (anchored (make_anchor x) x) H1),
               Flowable AccentBar, Flowable (Spacer 12), Flowable PageBreak],
      pending_heading = [Paragraph (anchored (make_anchor y) y) H1, AccentBar, Spacer 12]\<rparr>"
proof (intro conjI)
  show "pending_heading (run cs initial) = (if cs = [] then [] else buffered (last cs))"
    by (simp add: pending_run) (simp add: initial_def)
qed (simp_all add: initial_def section_heading_def sub_heading_def sub_sub_heading_def
       flush_heading_def)

text \<open>
  Claim C7: \<open>spacer h\<close> moves the buffered heading flowables to the story as they
  are, appends the spacer as a flowable of its own and leaves the buffer empty; every
  later call only appends to the story, so the spacer stays outside every group.
\<close>

theorem spacer_standalone:
  "story (spacer h s) = story s @ map Flowable (pending_heading s) @ [Flowable (Spacer h)] \<and>
   pending_heading (spacer h s) = [] \<and>
   prefix (story s @ map Flowable (pending_heading s) @ [Flowable (Spacer h)])
     (story (run cs (spacer h s)))"
proof -
  have st: "story (spacer h s) = story s @ map Flowable (pending_heading s) @ [Flowable (Spacer h)]"
    by (simp add: spacer_def Let_def story_flush_heading)
  have "prefix (story (spacer h s)) (story (run cs (spacer h s)))"
    by (rule story_run_prefix)
  with st show ?thesis
    by (simp add: spacer_def Let_def pending_flush_heading)
qed


end
